theory Spec2Isabelle
  imports Main "HOL-Library.Word" "HOL-Library.Sublist"
begin

section \<open>JavaScript values, exceptions and effects\<close>

text \<open>
  The script \<^verbatim>\<open>service_worker.js\<close> holds two programs: the background worker
  (lines 1 to 19) and the page script (lines 20 to 88). Both are glue around browser
  interfaces, so the embedding makes three things explicit: the values that travel
  (JSON), what can be thrown, and the state that the handlers change.
\<close>

datatype json =
    JNull
  | JBool bool
  | JNum int
  | JStr string
  | JArr "json list"
  | JObj "string \<Rightarrow> json option"

text \<open>
  A thrown value is either an instance of \<^verbatim>\<open>Error\<close> (it has a message; \<^verbatim>\<open>TypeError\<close>,
  \<^verbatim>\<open>SyntaxError\<close> and \<^verbatim>\<open>DOMException\<close> are such instances) or any other value, which
  the test \<^verbatim>\<open>error instanceof Error\<close> of the page script tells apart.
\<close>

datatype thrown = ErrorInstance (message: string) | NonError

text \<open>
  A piece of JavaScript that runs against a state \<open>'s\<close> either returns a value or throws,
  and leaves a state behind in both cases. A promise that has settled is a value of
  \<open>thrown + 'a\<close>: rejected with \<open>Inl\<close>, fulfilled with \<open>Inr\<close>.
\<close>

type_synonym ('s, 'a) js = "'s \<Rightarrow> (thrown + 'a) \<times> 's"

definition js_return :: "'a \<Rightarrow> ('s, 'a) js" where
  "js_return x = (\<lambda>s. (Inr x, s))"

definition settle :: "thrown + 'a \<Rightarrow> ('s, 'a) js" where
  "settle r = (\<lambda>s. (r, s))"

definition js_bind :: "('s, 'a) js \<Rightarrow> ('a \<Rightarrow> ('s, 'b) js) \<Rightarrow> ('s, 'b) js" where
  "js_bind m f = (\<lambda>s. case m s of (Inl e, s') \<Rightarrow> (Inl e, s') | (Inr x, s') \<Rightarrow> f x s')"

definition try_catch :: "('s, 'a) js \<Rightarrow> (thrown \<Rightarrow> ('s, 'a) js) \<Rightarrow> ('s, 'a) js" where
  "try_catch m handler = (\<lambda>s. case m s of (Inl e, s') \<Rightarrow> handler e s' | (Inr x, s') \<Rightarrow> (Inr x, s'))"


section \<open>The background worker (lines 1 to 19)\<close>

text \<open>
  The worker's view of the platform: the window clients inside its scope, the clients it
  controls, its skip-waiting flag, the notifications it has asked for and its console.
  \<^verbatim>\<open>clients.claim()\<close> makes the worker the controller of every client in scope;
  \<^verbatim>\<open>self.skipWaiting()\<close> sets the flag that lets a waiting worker activate while
  pages of the previous worker are still open.
\<close>

record notification_request =
  title :: "json option"
  body :: "json option"

record worker =
  open_pages :: "nat set"
  controlled :: "nat set"
  skip_waiting_flag :: bool
  shown :: "notification_request list"
  console :: "thrown list"

definition clients_claim :: "worker \<Rightarrow> worker" where
  "clients_claim w = w\<lparr>controlled := controlled w \<union> open_pages w\<rparr>"

definition skipWaiting :: "worker \<Rightarrow> worker" where
  "skipWaiting w = w\<lparr>skip_waiting_flag := True\<rparr>"

definition activate_listener :: "worker \<Rightarrow> worker" where
  "activate_listener w = clients_claim w"

definition install_listener :: "worker \<Rightarrow> worker" where
  "install_listener w = skipWaiting w"

text \<open>
  A push event carries \<^verbatim>\<open>event.data\<close>, which is \<^verbatim>\<open>null\<close> for a push without payload
  (\<open>None\<close>). Otherwise the only thing the handler does with it is to call \<^verbatim>\<open>json()\<close>,
  which throws a \<^verbatim>\<open>SyntaxError\<close> on a payload that is not JSON and returns the parsed
  value otherwise.
\<close>

record push_event =
  data :: "(thrown + json) option"

definition null_data_error :: thrown where
  "null_data_error = ErrorInstance ''Cannot read properties of null (reading json)''"

definition null_member_error :: "string \<Rightarrow> thrown" where
  "null_member_error k = ErrorInstance (''Cannot read properties of null (reading '' @ k @ '')'')"

text \<open>
  \<^verbatim>\<open>data.body\<close> and \<^verbatim>\<open>data.title\<close>: reading a member of \<^verbatim>\<open>null\<close> throws a
  \<^verbatim>\<open>TypeError\<close>; an object yields the member or \<^verbatim>\<open>undefined\<close> (\<open>None\<close>); a number, a
  boolean, a string or an array has neither member, so the read yields \<^verbatim>\<open>undefined\<close>.
  The function is used for these two member names only.
\<close>

fun read_member :: "json \<Rightarrow> string \<Rightarrow> thrown + json option" where
  "read_member JNull k = Inl (null_member_error k)"
| "read_member (JObj members) k = Inr (members k)"
| "read_member _ k = Inr None"

text \<open>
  The member of a parsed payload as a reader of the payload sees it: the member of an
  object, and \<^verbatim>\<open>undefined\<close> (\<open>None\<close>) for a member the object lacks and for any member
  of a number, a boolean, a string or an array.
\<close>

definition json_member :: "json \<Rightarrow> string \<Rightarrow> json option" where
  "json_member v k = (case v of JObj members \<Rightarrow> members k | _ \<Rightarrow> None)"

definition request_notification :: "notification_request \<Rightarrow> (worker, unit) js" where
  "request_notification r = (\<lambda>w. (Inr (), w\<lparr>shown := shown w @ [r]\<rparr>))"

definition console_log :: "thrown \<Rightarrow> (worker, unit) js" where
  "console_log error = (\<lambda>w. (Inr (), w\<lparr>console := console w @ [error]\<rparr>))"

text \<open>
  The \<^verbatim>\<open>try\<close> block of the push listener (lines 11 to 15). The options literal reads
  \<^verbatim>\<open>data.body\<close> before the call reads \<^verbatim>\<open>data.title\<close>. The parameter
  \<open>showNotification\<close> is the platform's answer to the request: the awaited promise is
  fulfilled or rejected.
\<close>

definition push_try ::
  "(notification_request \<Rightarrow> thrown + unit) \<Rightarrow> push_event \<Rightarrow> (worker, unit) js" where
  "push_try showNotification event =
     js_bind (settle (case data event of None \<Rightarrow> Inl null_data_error | Some parsed \<Rightarrow> parsed))
       (\<lambda>dat. js_bind (settle (read_member dat ''body''))
         (\<lambda>b. js_bind (settle (read_member dat ''title''))
           (\<lambda>t. js_bind (request_notification \<lparr>title = t, body = b\<rparr>)
             (\<lambda>_. settle (showNotification \<lparr>title = t, body = b\<rparr>)))))"

definition push_listener ::
  "(notification_request \<Rightarrow> thrown + unit) \<Rightarrow> push_event \<Rightarrow> (worker, unit) js" where
  "push_listener showNotification event =
     try_catch (push_try showNotification event) (\<lambda>error. console_log error)"


section \<open>Decoding the application server key (lines 26 to 37)\<close>

text \<open>
  \<^verbatim>\<open>window.atob\<close> belongs to the browser. It is modelled after the algorithm the HTML
  standard prescribes for it (forgiving-base64 decode): strip ASCII whitespace; if the
  length is a multiple of four, drop one or two trailing \<^verbatim>\<open>=\<close>; fail if the length
  leaves remainder one or a character is outside the base64 alphabet; then push six bits
  per character into a buffer, emit three bytes whenever it holds 24 bits, and at the end
  emit one byte from 12 bits or two bytes from 18 bits, discarding the spare low bits.
  The result is a string of characters with codes 0 to 255, and \<^typ>\<open>char\<close> has exactly
  these. A JavaScript string can also hold code units above 255; \<^verbatim>\<open>atob\<close> rejects
  those, and they are outside \<^typ>\<open>string\<close>.
\<close>

definition ascii_whitespace :: "char \<Rightarrow> bool" where
  "ascii_whitespace c =
     (c = CHR 0x09 \<or> c = CHR 0x0A \<or> c = CHR 0x0C \<or> c = CHR 0x0D \<or> c = CHR 0x20)"

definition base64_alphabet :: string where
  "base64_alphabet = ''ABCDEFGHIJKLMNOPQRSTUVWXYZabcdefghijklmnopqrstuvwxyz0123456789+/''"

fun position :: "char \<Rightarrow> string \<Rightarrow> nat option" where
  "position c [] = None"
| "position c (x # xs) = (if c = x then Some 0 else map_option Suc (position c xs))"

fun sextets_of :: "string \<Rightarrow> nat list option" where
  "sextets_of [] = Some []"
| "sextets_of (c # cs) =
     (case position c base64_alphabet of
        None \<Rightarrow> None
      | Some n \<Rightarrow> map_option ((#) n) (sextets_of cs))"

definition remove_padding :: "string \<Rightarrow> string" where
  "remove_padding d =
     (if length d mod 4 = 0 then
        (if 2 \<le> length d \<and> drop (length d - 2) d = ''=='' then take (length d - 2) d
         else if 1 \<le> length d \<and> drop (length d - 1) d = ''='' then take (length d - 1) d
         else d)
      else d)"

fun decode_step :: "nat \<Rightarrow> string \<times> nat \<times> nat \<Rightarrow> string \<times> nat \<times> nat" where
  "decode_step n (out, buffer, bits) =
     (let buffer' = buffer * 64 + n; bits' = bits + 6
      in if bits' = 24
         then (out @ [char_of (buffer' div 65536), char_of (buffer' div 256 mod 256),
                      char_of (buffer' mod 256)], 0, 0)
         else (out, buffer', bits'))"

fun decode_finish :: "string \<times> nat \<times> nat \<Rightarrow> string" where
  "decode_finish (out, buffer, bits) =
     (if bits = 12 then out @ [char_of (buffer div 16)]
      else if bits = 18 then out @ [char_of (buffer div 1024), char_of (buffer div 4 mod 256)]
      else out)"

definition invalid_character_error :: thrown where
  "invalid_character_error = ErrorInstance ''The string to be decoded is not correctly encoded.''"

definition atob :: "string \<Rightarrow> thrown + string" where
  "atob input =
     (let d = remove_padding (filter (\<lambda>c. \<not> ascii_whitespace c) input)
      in if length d mod 4 = 1 then Inl invalid_character_error
         else (case sextets_of d of
                 None \<Rightarrow> Inl invalid_character_error
               | Some ns \<Rightarrow> Inr (decode_finish (fold decode_step ns ([], 0, 0)))))"

text \<open>\<^verbatim>\<open>s.replace(/c/g, d)\<close> for a single character \<open>c\<close>.\<close>

definition replace_all :: "char \<Rightarrow> char \<Rightarrow> string \<Rightarrow> string" where
  "replace_all c d s = map (\<lambda>x. if x = c then d else x) s"

text \<open>
  The loop of lines 33 to 35. Storing into a \<^verbatim>\<open>Uint8Array\<close> keeps the low eight bits,
  which is what \<^term>\<open>word_of_nat\<close> into \<^typ>\<open>8 word\<close> does; the index is always in range.
\<close>

function fill :: "nat \<Rightarrow> string \<Rightarrow> 8 word list \<Rightarrow> 8 word list" where
  "fill i rawData outputArray =
     (if i < length rawData
      then fill (i + 1) rawData (outputArray[i := word_of_nat (of_char (rawData ! i))])
      else outputArray)"
  by pat_completeness auto
termination
  by (relation "measure (\<lambda>(i, rawData, outputArray). length rawData - i)") auto

declare fill.simps [simp del]

definition urlBase64ToUint8Array :: "string \<Rightarrow> thrown + 8 word list" where
  "urlBase64ToUint8Array base64String =
     (let padding = replicate ((4 - length base64String mod 4) mod 4) (CHR ''='');
          base64 = replace_all (CHR ''_'') (CHR ''/'')
                     (replace_all (CHR ''-'') (CHR ''+'') (base64String @ padding))
      in case atob base64 of
           Inl e \<Rightarrow> Inl e
         | Inr rawData \<Rightarrow> Inr (fill 0 rawData (replicate (length rawData) 0)))"

text \<open>
  The encoding the specification speaks of, written from its words and not from the
  script (the script only decodes): base64url as in RFC 4648, section 5. Three bytes
  form a 24-bit group read as four 6-bit indices into the URL-safe alphabet; a last group
  of two bytes gives three characters and one of a single byte gives two, the missing
  bits being zero. The padded form fills the text up to a multiple of four with
  \<^verbatim>\<open>=\<close>.
\<close>

definition base64url_alphabet :: string where
  "base64url_alphabet = ''ABCDEFGHIJKLMNOPQRSTUVWXYZabcdefghijklmnopqrstuvwxyz0123456789-_''"

fun base64url_sextets :: "nat list \<Rightarrow> nat list" where
  "base64url_sextets (a # b # c # rest) =
     (let n = a * 65536 + b * 256 + c
      in [n div 262144, n div 4096 mod 64, n div 64 mod 64, n mod 64] @ base64url_sextets rest)"
| "base64url_sextets [a, b] =
     (let n = (a * 256 + b) * 4 in [n div 4096, n div 64 mod 64, n mod 64])"
| "base64url_sextets [a] = (let n = a * 16 in [n div 64, n mod 64])"
| "base64url_sextets [] = []"

definition base64url_encode :: "8 word list \<Rightarrow> string" where
  "base64url_encode bytes =
     map (\<lambda>n. base64url_alphabet ! n) (base64url_sextets (map unat bytes))"

definition base64url_encode_padded :: "8 word list \<Rightarrow> string" where
  "base64url_encode_padded bytes =
     (let s = base64url_encode bytes in s @ replicate ((4 - length s mod 4) mod 4) (CHR ''=''))"

definition std_char :: "nat \<Rightarrow> char" where
  "std_char n =
     (\<lambda>x. if x = CHR ''_'' then CHR ''/'' else x)
       ((\<lambda>x. if x = CHR ''-'' then CHR ''+'' else x) (base64url_alphabet ! n))"


section \<open>The page script: state and platform (lines 20 to 25)\<close>

text \<open>
  The page state the script touches: the text of the \<^verbatim>\<open>details\<close> element, the text of
  the \<^verbatim>\<open>state\<close> element (\<open>None\<close> stands for the \<^verbatim>\<open>null\<close> that line 86 guards against
  with \<^verbatim>\<open>??\<close>), the property \<^verbatim>\<open>state.subscription\<close> that line 57 adds to that element
  (\<open>None\<close> while it is \<^verbatim>\<open>undefined\<close>) and the value of the \<^verbatim>\<open>userId\<close> input. The
  three elements are taken to exist. Writing \<^verbatim>\<open>state.innerText\<close> and writing
  \<^verbatim>\<open>state.textContent\<close> both replace the element's text.

  A subscription is known to the script only through \<^verbatim>\<open>JSON.stringify\<close>: it is
  represented by the members of its JSON form. \<^verbatim>\<open>JSON.parse(JSON.stringify(v))\<close> gives
  these members back, so a request body is kept as the object that is serialised, not as
  its text.
\<close>

type_synonym subscription = "string \<Rightarrow> json option"

record page =
  details_textContent :: string
  state_textContent :: "string option"
  state_subscription :: "subscription option"
  userId_value :: string

record request =
  url :: string
  http_method :: string
  content_type :: string
  payload :: "string \<Rightarrow> json option"

text \<open>
  What one run of a handler leaves behind: the page, the requests it has sent to
  \<^verbatim>\<open>/register\<close>, and the rejections of promises that nothing handles.
\<close>

record window =
  document :: page
  register_requests :: "request list"
  unhandled_rejections :: "thrown list"

text \<open>
  The configuration that \<^verbatim>\<open>/vapid.json\<close> serves is read only through its member
  \<^verbatim>\<open>publicKey\<close>, a string; \<open>None\<close> stands for a configuration without that member.
  The response is known only through \<^verbatim>\<open>resp.json()\<close>, which is rejected on a body that
  is not JSON.
\<close>

record vapid_keys =
  publicKey :: "string option"

record response =
  json_body :: "thrown + vapid_keys"

text \<open>
  The platform's side of one run of the push flow: how each promise the run creates
  settles, and what other handlers (the user typing, stream messages, another run) do to
  the page while the run is suspended at its \<open>k\<close>-th \<^verbatim>\<open>await\<close>.
\<close>

record platform =
  fetch_vapid_json :: "thrown + response"
  Notification_requestPermission :: "thrown + string"
  serviceWorker_register :: "thrown + unit"
  registration_update :: "thrown + unit"
  pushManager_subscribe :: "8 word list \<Rightarrow> thrown + subscription"
  fetch_register :: "request \<Rightarrow> thrown + unit"
  JSON_stringify :: "subscription \<Rightarrow> string"
  meanwhile :: "nat \<Rightarrow> page \<Rightarrow> page"

text \<open>
  At an \<^verbatim>\<open>await\<close> the run gives up control: the other handlers do their work on the
  page, then the run resumes with the outcome of the promise. The awaits of one run are
  numbered 0 (configuration), 1 (permission), 2 (worker registration), 3 (subscribe) and
  4 (registration request).
\<close>

definition await :: "platform \<Rightarrow> nat \<Rightarrow> thrown + 'a \<Rightarrow> (window, 'a) js" where
  "await pf k promise = (\<lambda>w. (promise, w\<lparr>document := meanwhile pf k (document w)\<rparr>))"

text \<open>A call whose promise is neither awaited nor given a handler (line 45).\<close>

definition floating :: "thrown + 'a \<Rightarrow> (window, unit) js" where
  "floating promise =
     (\<lambda>w. (Inr (),
        case promise of
          Inl e \<Rightarrow> w\<lparr>unhandled_rejections := unhandled_rejections w @ [e]\<rparr>
        | Inr _ \<Rightarrow> w))"

definition modify_page :: "(page \<Rightarrow> page) \<Rightarrow> (window, unit) js" where
  "modify_page f = (\<lambda>w. (Inr (), w\<lparr>document := f (document w)\<rparr>))"


section \<open>The push flow (lines 39 to 81)\<close>

definition fetchVapidKeys :: "platform \<Rightarrow> thrown + vapid_keys" where
  "fetchVapidKeys pf = (case fetch_vapid_json pf of Inl e \<Rightarrow> Inl e | Inr resp \<Rightarrow> json_body resp)"

definition undefined_length_error :: thrown where
  "undefined_length_error = ErrorInstance ''Cannot read properties of undefined (reading length)''"

definition subscribeUserToPush :: "platform \<Rightarrow> vapid_keys \<Rightarrow> (window, subscription) js" where
  "subscribeUserToPush pf vapidKeys =
     js_bind (await pf 2 (serviceWorker_register pf))
       (\<lambda>registration. js_bind (floating (registration_update pf))
         (\<lambda>_. js_bind (settle (case publicKey vapidKeys of
                                  None \<Rightarrow> Inl undefined_length_error
                                | Some base64String \<Rightarrow> urlBase64ToUint8Array base64String))
           (\<lambda>applicationServerKey. await pf 3 (pushManager_subscribe pf applicationServerKey))))"

text \<open>The body of both \<^verbatim>\<open>catch\<close> clauses (lines 60 to 62 and 77 to 79).\<close>

definition report :: "thrown \<Rightarrow> (window, unit) js" where
  "report error =
     (case error of
        ErrorInstance msg \<Rightarrow> modify_page (\<lambda>p. p\<lparr>state_textContent := Some msg\<rparr>)
      | NonError \<Rightarrow> js_return ())"

text \<open>The first \<^verbatim>\<open>try\<close> block (lines 55 to 58).\<close>

definition subscribe_and_display :: "platform \<Rightarrow> (window, unit) js" where
  "subscribe_and_display pf =
     js_bind (await pf 0 (fetchVapidKeys pf))
       (\<lambda>keys. js_bind (await pf 1 (Notification_requestPermission pf))
         (\<lambda>_. js_bind (subscribeUserToPush pf keys)
           (\<lambda>sub. js_bind (modify_page (\<lambda>p. p\<lparr>state_subscription := Some sub\<rparr>))
             (\<lambda>_. modify_page (\<lambda>p. p\<lparr>details_textContent := JSON_stringify pf sub\<rparr>)))))"

text \<open>
  The second \<^verbatim>\<open>try\<close> block (lines 66 to 75). The argument of \<^verbatim>\<open>fetch\<close> is built
  before the call: \<^verbatim>\<open>JSON.stringify(undefined)\<close> is \<^verbatim>\<open>undefined\<close>, on which
  \<^verbatim>\<open>JSON.parse\<close> throws a \<^verbatim>\<open>SyntaxError\<close>. In the object literal the spread comes
  after \<^verbatim>\<open>user_id\<close>, so a member of the subscription with that name replaces it.
\<close>

definition json_parse_undefined_error :: thrown where
  "json_parse_undefined_error = ErrorInstance ''Unexpected token u in JSON at position 0''"

definition build_request :: "(window, request) js" where
  "build_request =
     (\<lambda>w. (case state_subscription (document w) of
              None \<Rightarrow> Inl json_parse_undefined_error
            | Some sub \<Rightarrow>
                Inr \<lparr>url = ''/register'', http_method = ''POST'', content_type = ''application/json'',
                     payload = [''user_id'' \<mapsto> JStr (userId_value (document w))] ++ sub\<rparr>,
            w))"

definition send_request :: "request \<Rightarrow> (window, unit) js" where
  "send_request req = (\<lambda>w. (Inr (), w\<lparr>register_requests := register_requests w @ [req]\<rparr>))"

definition register_post :: "platform \<Rightarrow> (window, unit) js" where
  "register_post pf =
     js_bind build_request
       (\<lambda>req. js_bind (send_request req) (\<lambda>_. await pf 4 (fetch_register pf req)))"

definition main :: "platform \<Rightarrow> (window, unit) js" where
  "main pf =
     js_bind (try_catch (subscribe_and_display pf) report)
       (\<lambda>_. try_catch (register_post pf) report)"


section \<open>The stream flow (lines 83 to 88)\<close>

definition serverSentEvent :: "page \<Rightarrow> string" where
  "serverSentEvent p = ''/sse?user_id='' @ userId_value p"

definition newline :: string where
  "newline = [CHR 0x0A]"

definition onmessage :: "string \<Rightarrow> page \<Rightarrow> page" where
  "onmessage event_data p =
     p\<lparr>state_textContent :=
         Some ((case state_textContent p of None \<Rightarrow> [] | Some t \<Rightarrow> t) @ newline @ event_data)\<rparr>"

text \<open>The handler runs once per message, in the order of arrival.\<close>

definition deliver :: "string list \<Rightarrow> page \<Rightarrow> page" where
  "deliver messages p = fold onmessage messages p"

text \<open>The specification's words: the messages joined by newlines.\<close>

fun joined_by_newlines :: "string list \<Rightarrow> string" where
  "joined_by_newlines [] = []"
| "joined_by_newlines [m] = m"
| "joined_by_newlines (m # ms) = m @ newline @ joined_by_newlines ms"

definition displayed :: "page \<Rightarrow> string" where
  "displayed p = (case state_textContent p of None \<Rightarrow> [] | Some t \<Rightarrow> t)"


section \<open>Example inputs\<close>

definition blank_page :: page where
  "blank_page = \<lparr>details_textContent = [], state_textContent = Some [],
     state_subscription = None, userId_value = ''alice''\<rparr>"

definition fresh_window :: window where
  "fresh_window = \<lparr>document = blank_page, register_requests = [], unhandled_rejections = []\<rparr>"

definition idle_worker :: worker where
  "idle_worker = \<lparr>open_pages = {1, 2}, controlled = {}, skip_waiting_flag = False,
     shown = [], console = []\<rparr>"

text \<open>A platform that accepts every notification, and the payload \<^verbatim>\<open>{}\<close>.\<close>

definition accept_notification :: "notification_request \<Rightarrow> thrown + unit" where
  "accept_notification r = Inr ()"

definition empty_object :: json where
  "empty_object = JObj Map.empty"

definition example_subscription :: subscription where
  "example_subscription =
     [''endpoint'' \<mapsto> JStr ''https://push.example/abc'', ''expirationTime'' \<mapsto> JNull]"

text \<open>A platform on which every step of the push flow succeeds and nothing else happens.\<close>

definition calm_platform :: platform where
  "calm_platform =
     \<lparr>fetch_vapid_json = Inr \<lparr>json_body = Inr \<lparr>publicKey = Some ''AQID''\<rparr>\<rparr>,
      Notification_requestPermission = Inr ''granted'',
      serviceWorker_register = Inr (),
      registration_update = Inr (),
      pushManager_subscribe = (\<lambda>key. Inr example_subscription),
      fetch_register = (\<lambda>req. Inr ()),
      JSON_stringify = (\<lambda>sub. ''{...}''),
      meanwhile = (\<lambda>k p. p)\<rparr>"


section \<open>Names for intermediate states and requests\<close>

text \<open>
  The window after the run was suspended at its \<open>k\<close>-th \<^verbatim>\<open>await\<close>, the window after the
  call of line 45, the page as the other handlers have left it when the subscribe call
  settles, the request that lines 66 to 75 build from a user id and a subscription, and
  the window after a \<^verbatim>\<open>catch\<close> clause has written a message.
\<close>

definition suspended :: "platform \<Rightarrow> nat \<Rightarrow> window \<Rightarrow> window" where
  "suspended pf k w = w\<lparr>document := meanwhile pf k (document w)\<rparr>"

definition after_update :: "platform \<Rightarrow> window \<Rightarrow> window" where
  "after_update pf w =
     (case registration_update pf of
        Inl e \<Rightarrow> w\<lparr>unhandled_rejections := unhandled_rejections w @ [e]\<rparr>
      | Inr _ \<Rightarrow> w)"

definition page_when_subscribed :: "platform \<Rightarrow> page \<Rightarrow> page" where
  "page_when_subscribed pf p = meanwhile pf 3 (meanwhile pf 2 (meanwhile pf 1 (meanwhile pf 0 p)))"

definition register_request :: "string \<Rightarrow> subscription \<Rightarrow> request" where
  "register_request user_id sub =
     \<lparr>url = ''/register'', http_method = ''POST'', content_type = ''application/json'',
      payload = [''user_id'' \<mapsto> JStr user_id] ++ sub\<rparr>"

definition report_text :: "string \<Rightarrow> window \<Rightarrow> window" where
  "report_text msg w = w\<lparr>document := (document w)\<lparr>state_textContent := Some msg\<rparr>\<rparr>"


section \<open>Further example inputs\<close>

text \<open>The user changes the user id while the permission prompt is open.\<close>

definition typing_platform :: platform where
  "typing_platform =
     calm_platform\<lparr>meanwhile := (\<lambda>k p. if k = 1 then p\<lparr>userId_value := ''bob''\<rparr> else p)\<rparr>"

text \<open>Everything succeeds, but the update check of line 45 cannot fetch the script.\<close>

definition failed_update_platform :: platform where
  "failed_update_platform =
     calm_platform\<lparr>registration_update := Inl (ErrorInstance ''Failed to fetch the script'')\<rparr>"

text \<open>The key fetch fails.\<close>

definition offline_platform :: platform where
  "offline_platform = calm_platform\<lparr>fetch_vapid_json := Inl (ErrorInstance ''Failed to fetch'')\<rparr>"

definition connected_window :: window where
  "connected_window =
     fresh_window\<lparr>document := blank_page\<lparr>state_textContent := Some ''connected''\<rparr>\<rparr>"


section \<open>The key decoder inverts base64url encoding\<close>

lemma fill_eq:
  "length out = length raw \<Longrightarrow>
   fill i raw out = take i out @ map (\<lambda>c. word_of_nat (of_char c)) (drop i raw)"
proof (induction i raw out rule: fill.induct)
  case (1 i raw out)
  show ?case
  proof (cases "i < length raw")
    case True
    have d: "drop i raw = raw ! i # drop (Suc i) raw"
      using True by (simp add: Cons_nth_drop_Suc)
    have "fill i raw out = fill (i + 1) raw (out[i := word_of_nat (of_char (raw ! i))])"
      using True by (subst fill.simps) simp
    also have "\<dots> = take (i + 1) (out[i := word_of_nat (of_char (raw ! i))])
                        @ map (\<lambda>c. word_of_nat (of_char c)) (drop (i + 1) raw)"
      using 1 True by simp
    also have "\<dots> = take i out @ map (\<lambda>c. word_of_nat (of_char c)) (drop i raw)"
      using True 1(2) by (simp add: d take_Suc_conv_app_nth)
    finally show ?thesis .
  next
    case False
    then show ?thesis using 1(2) by (subst fill.simps) simp
  qed
qed

lemma fill_map:
  "fill 0 raw (replicate (length raw) 0) = map (\<lambda>c. word_of_nat (of_char c)) raw"
  by (simp add: fill_eq)


lemma recompose4:
  fixes n :: nat
  shows "((n div 262144 * 64 + n div 4096 mod 64) * 64 + n div 64 mod 64) * 64 + n mod 64 = n"
proof -
  have a: "n div 4096 = n div 64 div 64" by (simp add: div_mult2_eq)
  have b: "n div 262144 = n div 64 div 64 div 64" by (simp add: div_mult2_eq)
  show ?thesis unfolding a b by simp
qed

lemma recompose3:
  fixes n :: nat
  shows "(n div 4096 * 64 + n div 64 mod 64) * 64 + n mod 64 = n"
proof -
  have a: "n div 4096 = n div 64 div 64" by (simp add: div_mult2_eq)
  show ?thesis unfolding a by simp
qed

lemma bytes3:
  fixes a b c :: nat
  assumes "b < 256" "c < 256"
  shows "(a * 65536 + b * 256 + c) div 65536 = a"
    and "(a * 65536 + b * 256 + c) div 256 mod 256 = b"
    and "(a * 65536 + b * 256 + c) mod 256 = c"
proof -
  show "(a * 65536 + b * 256 + c) div 65536 = a" using assms by simp
  have "(a * 65536 + b * 256 + c) div 256 = a * 256 + b" using assms by simp
  then show "(a * 65536 + b * 256 + c) div 256 mod 256 = b" using assms by simp
  have "a * 65536 + b * 256 + c = (a * 256 + b) * 256 + c" by simp
  then show "(a * 65536 + b * 256 + c) mod 256 = c" using assms by (metis mod_less mod_mult_self3)
qed

lemma bytes2:
  fixes a b :: nat
  assumes "b < 256"
  shows "(a * 256 + b) * 4 div 1024 = a" and "(a * 256 + b) * 4 div 4 mod 256 = b"
  using assms by simp_all

lemma decode_group4:
  "fold decode_step [s1, s2, s3, s4] (out, 0, 0) =
     (let n = ((s1 * 64 + s2) * 64 + s3) * 64 + s4
      in (out @ [char_of (n div 65536), char_of (n div 256 mod 256), char_of (n mod 256)], 0, 0))"
  by (simp add: Let_def)

lemma decode_sextets:
  "list_all (\<lambda>b. b < 256) bs \<Longrightarrow>
   decode_finish (fold decode_step (base64url_sextets bs) (out, 0, 0)) = out @ map char_of bs"
proof (induction bs arbitrary: out rule: base64url_sextets.induct)
  case (1 a b c rest)
  define n where "n = a * 65536 + b * 256 + c"
  have bc: "b < 256" "c < 256" using 1(2) by simp_all
  have rest: "list_all (\<lambda>b. b < 256) rest" using 1(2) by simp
  have s: "base64url_sextets (a # b # c # rest) =
     [n div 262144, n div 4096 mod 64, n div 64 mod 64, n mod 64] @ base64url_sextets rest"
    by (simp add: n_def Let_def)
  have "fold decode_step [n div 262144, n div 4096 mod 64, n div 64 mod 64, n mod 64] (out, 0, 0)
        = (out @ [char_of a, char_of b, char_of c], 0, 0)"
    unfolding decode_group4 Let_def recompose4
    using bytes3 [OF bc, of a] by (simp add: n_def)
  then show ?case
    unfolding s fold_append comp_def using "1.IH" [OF refl rest] by (simp add: n_def)
next
  case (2 a b)
  define n where "n = (a * 256 + b) * 4"
  have b: "b < 256" using 2 by simp
  have "fold decode_step [n div 4096, n div 64 mod 64, n mod 64] (out, 0, 0)
        = (out, (n div 4096 * 64 + n div 64 mod 64) * 64 + n mod 64, 18)"
    by (simp add: Let_def)
  then show ?case using bytes2 [OF b, of a]
    unfolding recompose3 by (simp add: n_def Let_def)
next
  case (3 a)
  define n where "n = a * 16"
  have "fold decode_step [n div 64, n mod 64] (out, 0, 0) = (out, n, 12)"
    by (simp add: Let_def)
  then show ?case by (simp add: n_def Let_def)
next
  case 4
  then show ?case by simp
qed

lemma alphabet_table:
  "\<forall>n\<in>{0..<64}. position (std_char n) base64_alphabet = Some n
      \<and> \<not> ascii_whitespace (std_char n) \<and> std_char n \<noteq> CHR ''=''"
  by code_simp

lemma alphabet_facts:
  assumes "n < 64"
  shows "position (std_char n) base64_alphabet = Some n"
    and "\<not> ascii_whitespace (std_char n)" and "std_char n \<noteq> CHR ''=''"
  using alphabet_table assms by auto

lemma sextets_bound:
  "list_all (\<lambda>b. b < 256) bs \<Longrightarrow> list_all (\<lambda>n. n < 64) (base64url_sextets bs)"
proof (induction bs rule: base64url_sextets.induct)
  case (1 a b c rest)
  then have "a * 65536 + b * 256 + c < 16777216" by simp
  then have "(a * 65536 + b * 256 + c) div 262144 < 64" by simp
  with 1 show ?case by (simp add: Let_def)
next
  case (2 a b)
  then have "(a * 256 + b) * 4 < 262144" by simp
  then have "(a * 256 + b) * 4 div 4096 < 64" by simp
  then show ?case by (simp add: Let_def)
next
  case (3 a)
  then have "a * 16 div 64 < 64" by simp
  then show ?case by (simp add: Let_def)
qed simp

lemma sextets_length:
  "length (base64url_sextets bs) mod 4 = (case length bs mod 3 of 0 \<Rightarrow> 0 | Suc 0 \<Rightarrow> 2 | _ \<Rightarrow> 3)"
proof (induction bs rule: base64url_sextets.induct)
  case (1 a b c rest)
  have "length (a # b # c # rest) mod 3 = length rest mod 3" by simp
  moreover have "length (base64url_sextets (a # b # c # rest)) mod 4 = length (base64url_sextets rest) mod 4"
    by (simp add: Let_def)
  ultimately show ?case using 1 by simp
qed (simp_all add: Let_def)

lemma sextets_of_std:
  "list_all (\<lambda>n. n < 64) ns \<Longrightarrow> sextets_of (map std_char ns) = Some ns"
  by (induction ns) (simp_all add: alphabet_facts)

lemma mod4_cases:
  fixes k :: nat
  assumes "k mod 4 \<noteq> 1"
  shows "k mod 4 = 0 \<or> k mod 4 = 2 \<or> k mod 4 = 3"
proof -
  have "k mod 4 < 4" by simp
  then show ?thesis using assms by linarith
qed

lemma remove_padding_unpadded:
  assumes "CHR ''='' \<notin> set s" and "length s mod 4 = 0"
  shows "remove_padding s = s"
proof -
  have "drop (length s - 2) s \<noteq> ''==''"
  proof
    assume "drop (length s - 2) s = ''==''"
    then have "CHR ''='' \<in> set (drop (length s - 2) s)" by simp
    then show False using assms(1) by (meson in_set_dropD)
  qed
  moreover have "drop (length s - 1) s \<noteq> ''=''"
  proof
    assume "drop (length s - 1) s = ''=''"
    then have "CHR ''='' \<in> set (drop (length s - 1) s)" by simp
    then show False using assms(1) by (meson in_set_dropD)
  qed
  ultimately show ?thesis by (simp add: remove_padding_def)
qed

lemma remove_padding_two:
  assumes "length s mod 4 = 2"
  shows "remove_padding (s @ ''=='') = s"
proof -
  have "(length s + 2) mod 4 = 0" using assms by presburger
  then show ?thesis by (simp add: remove_padding_def)
qed

lemma remove_padding_one:
  assumes "CHR ''='' \<notin> set s" and "length s mod 4 = 3"
  shows "remove_padding (s @ ''='') = s"
proof -
  have len: "(length s + 1) mod 4 = 0" using assms(2) by presburger
  have pos: "1 \<le> length s" using assms(2) by (cases s) simp_all
  have "drop (length s - 1) s \<noteq> ''=''"
  proof
    assume "drop (length s - 1) s = ''=''"
    then have "CHR ''='' \<in> set (drop (length s - 1) s)" by simp
    then show False using assms(1) by (meson in_set_dropD)
  qed
  then have "drop (length s + 1 - 2) (s @ ''='') \<noteq> ''==''"
    using pos by simp
  then show ?thesis using len by (simp add: remove_padding_def)
qed

lemma remove_padding_restored:
  assumes "CHR ''='' \<notin> set s" and "length s mod 4 \<noteq> 1"
  shows "remove_padding (s @ replicate ((4 - length s mod 4) mod 4) (CHR ''='')) = s"
proof -
  consider "length s mod 4 = 0" | "length s mod 4 = 2" | "length s mod 4 = 3"
    using mod4_cases [OF assms(2)] by auto
  then show ?thesis
  proof cases
    case 1
    then show ?thesis using remove_padding_unpadded [OF assms(1)] by simp
  next
    case 2
    then show ?thesis using remove_padding_two [of s] by (simp add: numeral_2_eq_2)
  next
    case 3
    then show ?thesis using remove_padding_one [OF assms(1)] by simp
  qed
qed

lemma replace_is_std:
  "replace_all (CHR ''_'') (CHR ''/'') (replace_all (CHR ''-'') (CHR ''+'')
      (map (\<lambda>n. base64url_alphabet ! n) ns @ replicate k (CHR ''='')))
   = map std_char ns @ replicate k (CHR ''='')"
  by (simp add: replace_all_def std_char_def)

lemma std_no_padding:
  "list_all (\<lambda>n. n < 64) ns \<Longrightarrow> CHR ''='' \<notin> set (map std_char ns)"
proof (induction ns)
  case (Cons n ns)
  then have "std_char n \<noteq> CHR ''=''" by (simp add: alphabet_facts)
  then have "CHR ''='' \<noteq> std_char n" by (rule not_sym)
  with Cons show ?case by simp
qed simp

lemma padding_not_whitespace: "\<not> ascii_whitespace (CHR ''='')"
  by (simp add: ascii_whitespace_def)

lemma std_no_whitespace:
  "list_all (\<lambda>n. n < 64) ns \<Longrightarrow>
   filter (\<lambda>c. \<not> ascii_whitespace c) (map std_char ns @ replicate k (CHR ''=''))
     = map std_char ns @ replicate k (CHR ''='')"
  by (induction ns) (simp_all add: alphabet_facts padding_not_whitespace)

lemma unat_byte: "unat (b :: 8 word) < 256"
  using unsigned_less [of b, where 'a = nat] by simp

lemma byte_char_roundtrip:
  "map (\<lambda>c. word_of_nat (of_char c)) (map char_of (map unat bs)) = (bs :: 8 word list)"
  by (induction bs) (simp_all add: unat_byte)

lemma atob_padded:
  fixes bs :: "8 word list"
  defines "ns \<equiv> base64url_sextets (map unat bs)"
  shows "atob (map std_char ns @ replicate ((4 - length ns mod 4) mod 4) (CHR ''=''))
           = Inr (map char_of (map unat bs))"
proof -
  have bytes: "list_all (\<lambda>b. b < 256) (map unat bs)"
    by (induction bs) (simp_all add: unat_byte)
  have small: "list_all (\<lambda>n. n < 64) ns"
    unfolding ns_def by (rule sextets_bound [OF bytes])
  have len: "length (map std_char ns) mod 4 \<noteq> 1"
    using sextets_length [of "map unat bs"]
    by (simp add: ns_def split: nat.splits)
  have "remove_padding (map std_char ns @ replicate ((4 - length (map std_char ns) mod 4) mod 4) (CHR ''=''))
          = map std_char ns"
    by (rule remove_padding_restored [OF std_no_padding [OF small] len])
  then have rp: "remove_padding (map std_char ns @ replicate ((4 - length ns mod 4) mod 4) (CHR ''=''))
          = map std_char ns"
    by simp
  have dec: "decode_finish (fold decode_step ns ([], 0, 0)) = map char_of (map unat bs)"
    unfolding ns_def using decode_sextets [OF bytes, of "[]"] by simp
  show ?thesis
    using len unfolding atob_def std_no_whitespace [OF small] rp Let_def
    by (simp add: sextets_of_std [OF small] dec)
qed


lemma pad_len: "((n::nat) + (4 - n mod 4) mod 4) mod 4 = 0"
proof -
  have "n mod 4 < 4" by simp
  then consider "n mod 4 = 0" | "n mod 4 = 1" | "n mod 4 = 2" | "n mod 4 = 3" by linarith
  then show ?thesis
  proof cases
    case 1 then show ?thesis by simp
  next
    case 2
    have "(n + 3) mod 4 = (n mod 4 + 3) mod 4" by (rule mod_add_left_eq [symmetric])
    then show ?thesis using 2 by simp
  next
    case 3
    have "(n + 2) mod 4 = (n mod 4 + 2) mod 4" by (rule mod_add_left_eq [symmetric])
    then show ?thesis using 3 by simp
  next
    case 4
    have "(n + 1) mod 4 = (n mod 4 + 1) mod 4" by (rule mod_add_left_eq [symmetric])
    then show ?thesis using 4 by simp
  qed
qed

lemma encode_padded_shape:
  "base64url_encode_padded bytes
     = map (\<lambda>n. base64url_alphabet ! n) (base64url_sextets (map unat bytes))
       @ replicate ((4 - length (base64url_sextets (map unat bytes)) mod 4) mod 4) (CHR ''='')"
  by (simp add: base64url_encode_padded_def base64url_encode_def Let_def)

lemma encode_padded_length: "length (base64url_encode_padded bytes) mod 4 = 0"
  by (simp add: encode_padded_shape pad_len)

lemma decode_unpadded:
  "urlBase64ToUint8Array (base64url_encode bytes) = Inr bytes"
proof -
  define ns where "ns = base64url_sextets (map unat bytes)"
  define k where "k = (4 - length ns mod 4) mod 4"
  have e: "base64url_encode bytes = map (\<lambda>n. base64url_alphabet ! n) ns"
    by (simp add: base64url_encode_def ns_def)
  have a: "atob (map std_char ns @ replicate k (CHR ''='')) = Inr (map char_of (map unat bytes))"
    unfolding ns_def k_def by (rule atob_padded)
  have ke: "(4 - length (map (\<lambda>n. base64url_alphabet ! n) ns) mod 4) mod 4 = k"
    by (simp add: k_def)
  have "urlBase64ToUint8Array (base64url_encode bytes)
      = (case atob (replace_all (CHR ''_'') (CHR ''/'') (replace_all (CHR ''-'') (CHR ''+'')
            (map (\<lambda>n. base64url_alphabet ! n) ns @ replicate k (CHR ''='')))) of
           Inl e \<Rightarrow> Inl e
         | Inr rawData \<Rightarrow> Inr (fill 0 rawData (replicate (length rawData) 0)))"
    by (simp only: urlBase64ToUint8Array_def Let_def e ke)
  also have "\<dots> = Inr (fill 0 (map char_of (map unat bytes))
                          (replicate (length (map char_of (map unat bytes))) 0))"
    by (simp only: replace_is_std a sum.case)
  also have "\<dots> = Inr bytes"
    by (simp only: fill_map byte_char_roundtrip)
  finally show ?thesis .
qed

lemma decode_padded:
  "urlBase64ToUint8Array (base64url_encode_padded bytes) = Inr bytes"
proof -
  define ns where "ns = base64url_sextets (map unat bytes)"
  define k where "k = (4 - length ns mod 4) mod 4"
  have a: "atob (map std_char ns @ replicate k (CHR ''='')) = Inr (map char_of (map unat bytes))"
    unfolding ns_def k_def by (rule atob_padded)
  have kp: "(4 - length (base64url_encode_padded bytes) mod 4) mod 4 = 0"
    by (simp add: encode_padded_length)
  have p: "base64url_encode_padded bytes @ replicate 0 (CHR ''='')
             = map (\<lambda>n. base64url_alphabet ! n) ns @ replicate k (CHR ''='')"
    by (simp add: encode_padded_shape ns_def k_def)
  have "urlBase64ToUint8Array (base64url_encode_padded bytes)
      = (case atob (replace_all (CHR ''_'') (CHR ''/'') (replace_all (CHR ''-'') (CHR ''+'')
            (base64url_encode_padded bytes @ replicate 0 (CHR ''='')))) of
           Inl e \<Rightarrow> Inl e
         | Inr rawData \<Rightarrow> Inr (fill 0 rawData (replicate (length rawData) 0)))"
    by (simp only: urlBase64ToUint8Array_def Let_def kp)
  also have "\<dots> = Inr (fill 0 (map char_of (map unat bytes))
                          (replicate (length (map char_of (map unat bytes))) 0))"
    by (simp only: p replace_is_std a sum.case)
  also have "\<dots> = Inr bytes"
    by (simp only: fill_map byte_char_roundtrip)
  finally show ?thesis .
qed

lemma replicate_two: "replicate 2 x = [x, x]"
  by (simp add: numeral_2_eq_2)

lemma example_key_encoding:
  "base64url_encode [251, 255, 1, 51] = ''-_8BMw''"
  "base64url_encode_padded [251, 255, 1, 51] = ''-_8BMw==''"
  by (simp_all add: base64url_encode_padded_def base64url_encode_def base64url_alphabet_def Let_def replicate_two)

text \<open>
  Claim C2. For every byte sequence, encoding it as base64url (RFC 4648, with or without
  the trailing padding) and applying \<^verbatim>\<open>urlBase64ToUint8Array\<close> gives the bytes back:
  the routine does not throw, the array has as many elements as there were bytes, and
  each element is the byte that standard base64 decoding yields after \<^verbatim>\<open>-\<close> and
  \<^verbatim>\<open>_\<close> are mapped to \<^verbatim>\<open>+\<close> and \<^verbatim>\<open>/\<close> and the padding is restored.
\<close>

theorem urlBase64ToUint8Array_roundtrip:
  "urlBase64ToUint8Array (base64url_encode bytes) = Inr bytes
   \<and> urlBase64ToUint8Array (base64url_encode_padded bytes) = Inr bytes"
  by (rule conjI [OF decode_unpadded decode_padded])

theorem urlBase64ToUint8Array_roundtrip_witness:
  "urlBase64ToUint8Array ''-_8BMw'' = Inr [251, 255, 1, 51]
   \<and> urlBase64ToUint8Array ''-_8BMw=='' = Inr [251, 255, 1, 51]"
  using urlBase64ToUint8Array_roundtrip [of "[251, 255, 1, 51]"]
  unfolding example_key_encoding .

section \<open>The stream flow appends\<close>

lemma displayed_onmessage:
  "displayed (onmessage event_data p) = displayed p @ newline @ event_data"
  by (simp add: displayed_def onmessage_def)

lemma displayed_deliver:
  "displayed (deliver messages p) = displayed p @ concat (map (\<lambda>m. newline @ m) messages)"
  unfolding deliver_def
  by (induction messages arbitrary: p) (simp_all add: displayed_onmessage)

lemma concat_newlines:
  "messages \<noteq> [] \<Longrightarrow>
   concat (map (\<lambda>m. newline @ m) messages) = newline @ joined_by_newlines messages"
  by (induction messages rule: joined_by_newlines.induct) simp_all

text \<open>
  Claim C1, as amended. After the handler has run for the messages of a sequence, in the
  order of arrival, the text of the display element is the text it had before the first
  message, followed by a newline and the payloads joined by newlines (every payload,
  the first one too, is preceded by a newline); with no message the text is unchanged.
\<close>

theorem stream_text_after_messages:
  "displayed (deliver messages p) =
     (if messages = [] then displayed p
      else displayed p @ newline @ joined_by_newlines messages)"
  by (simp add: displayed_deliver concat_newlines)

theorem stream_text_after_messages_witness:
  "displayed (deliver [''a'', ''b''] blank_page) = [CHR 0x0A] @ ''a'' @ [CHR 0x0A] @ ''b''"
  using stream_text_after_messages [of "[''a'', ''b'']" blank_page]
  by (simp add: displayed_def blank_page_def newline_def)

text \<open>
  Claim C1 as stated fails: on an empty display element the two messages \<^verbatim>\<open>a\<close> and
  \<^verbatim>\<open>b\<close> leave a text that starts with a newline, which the payloads joined by
  newlines do not.
\<close>

theorem stream_text_not_plain_join:
  "displayed (deliver [''a'', ''b''] blank_page) \<noteq> joined_by_newlines [''a'', ''b'']"
  unfolding displayed_deliver by (simp add: displayed_def blank_page_def newline_def)

text \<open>
  Claim C10. The text of the display element before the message handler runs is a prefix
  of its text afterwards, for one message and hence for any sequence of messages.
\<close>

theorem onmessage_only_appends:
  "prefix (displayed p) (displayed (onmessage event_data p))
   \<and> prefix (displayed p) (displayed (deliver messages p))"
  by (simp add: displayed_onmessage displayed_deliver)

theorem onmessage_only_appends_witness:
  "prefix ''x'' (displayed (onmessage ''m'' (blank_page\<lparr>state_textContent := Some ''x''\<rparr>)))
   \<and> prefix [] (displayed (deliver [''a'', ''b''] (blank_page\<lparr>state_textContent := None\<rparr>)))"
  using onmessage_only_appends [of "blank_page\<lparr>state_textContent := Some ''x''\<rparr>" "''m''" "[]"]
    onmessage_only_appends [of "blank_page\<lparr>state_textContent := None\<rparr>" "''m''" "[''a'', ''b'']"]
  by (simp add: displayed_def)


section \<open>The background worker\<close>

lemma js_bind_settle_Inl [simp]: "js_bind (settle (Inl e)) f s = (Inl e, s)"
  by (simp add: js_bind_def settle_def)

lemma js_bind_settle_Inr [simp]: "js_bind (settle (Inr x)) f s = f x s"
  by (simp add: js_bind_def settle_def)

lemma try_catch_fulfils:
  assumes "\<And>e s. fst (handler e s) = Inr ()"
  shows "fst (try_catch m handler s) = Inr ()"
proof (cases "m s")
  case (Pair r s')
  then show ?thesis using assms by (cases r) (simp_all add: try_catch_def)
qed

lemma push_try_no_payload:
  "data event = None \<Longrightarrow> push_try showNotification event w = (Inl null_data_error, w)"
  by (simp add: push_try_def)

lemma read_member_not_null:
  "v \<noteq> JNull \<Longrightarrow> read_member v k = Inr (json_member v k)"
  by (cases v) (simp_all add: json_member_def)

lemma push_try_value:
  "data event = Some (Inr v) \<Longrightarrow> v \<noteq> JNull \<Longrightarrow>
   push_try showNotification event w =
     (showNotification \<lparr>title = json_member v ''title'', body = json_member v ''body''\<rparr>,
      w\<lparr>shown := shown w
            @ [\<lparr>title = json_member v ''title'', body = json_member v ''body''\<rparr>]\<rparr>)"
  by (simp add: push_try_def read_member_not_null js_bind_def request_notification_def settle_def)

lemma push_try_malformed:
  "data event = Some (Inl e) \<Longrightarrow> push_try showNotification event w = (Inl e, w)"
  by (simp add: push_try_def)

lemma push_try_null:
  "data event = Some (Inr JNull) \<Longrightarrow>
   push_try showNotification event w = (Inl (null_member_error ''body''), w)"
  by (simp add: push_try_def)

lemma push_try_object:
  "data event = Some (Inr (JObj members)) \<Longrightarrow>
   push_try showNotification event w =
     (showNotification \<lparr>title = members ''title'', body = members ''body''\<rparr>,
      w\<lparr>shown := shown w @ [\<lparr>title = members ''title'', body = members ''body''\<rparr>]\<rparr>)"
  by (simp add: push_try_def js_bind_def request_notification_def settle_def)

text \<open>
  Claim C4, as amended. Whatever the push event carries and however the platform answers,
  the promise of the push listener is fulfilled: nothing thrown inside it escapes. When
  the event has no payload, when the payload is not valid JSON and when it is the JSON
  value \<^verbatim>\<open>null\<close>, the failure is caught and the only effect of the listener is one more
  entry in the console: no notification is asked for and the event is handled once. When
  the payload parses to any other value, also one that lacks \<^verbatim>\<open>title\<close> or \<^verbatim>\<open>body\<close>,
  reading the members fails nowhere: the listener asks for one notification with the
  members it finds, \<^verbatim>\<open>undefined\<close> for a missing one, and writes to the console only when
  the platform rejects that request.
\<close>

theorem push_failure_caught_and_logged:
  "fst (push_listener showNotification event w) = Inr ()
   \<and> (data event = None \<longrightarrow>
        snd (push_listener showNotification event w)
          = w\<lparr>console := console w @ [null_data_error]\<rparr>)
   \<and> (data event = Some (Inl e) \<longrightarrow>
        snd (push_listener showNotification event w) = w\<lparr>console := console w @ [e]\<rparr>)
   \<and> (data event = Some (Inr JNull) \<longrightarrow>
        snd (push_listener showNotification event w)
          = w\<lparr>console := console w @ [null_member_error ''body'']\<rparr>)
   \<and> (data event = Some (Inr v) \<and> v \<noteq> JNull \<longrightarrow>
        snd (push_listener showNotification event w)
          = (case showNotification
                    \<lparr>title = json_member v ''title'', body = json_member v ''body''\<rparr> of
               Inl rejection \<Rightarrow>
                 w\<lparr>shown := shown w
                       @ [\<lparr>title = json_member v ''title'', body = json_member v ''body''\<rparr>],
                   console := console w @ [rejection]\<rparr>
             | Inr _ \<Rightarrow>
                 w\<lparr>shown := shown w
                       @ [\<lparr>title = json_member v ''title'', body = json_member v ''body''\<rparr>]\<rparr>))"
proof (intro conjI impI)
  show "fst (push_listener showNotification event w) = Inr ()"
    unfolding push_listener_def by (rule try_catch_fulfils) (simp add: console_log_def)
next
  assume "data event = None"
  then show "snd (push_listener showNotification event w)
          = w\<lparr>console := console w @ [null_data_error]\<rparr>"
    by (simp add: push_listener_def try_catch_def push_try_no_payload console_log_def)
next
  assume "data event = Some (Inl e)"
  then show "snd (push_listener showNotification event w) = w\<lparr>console := console w @ [e]\<rparr>"
    by (simp add: push_listener_def try_catch_def push_try_malformed console_log_def)
next
  assume "data event = Some (Inr JNull)"
  then show "snd (push_listener showNotification event w)
          = w\<lparr>console := console w @ [null_member_error ''body'']\<rparr>"
    by (simp add: push_listener_def try_catch_def push_try_null console_log_def)
next
  assume "data event = Some (Inr v) \<and> v \<noteq> JNull"
  then have d: "data event = Some (Inr v)" and n: "v \<noteq> JNull" by simp_all
  show "snd (push_listener showNotification event w)
          = (case showNotification
                    \<lparr>title = json_member v ''title'', body = json_member v ''body''\<rparr> of
               Inl rejection \<Rightarrow>
                 w\<lparr>shown := shown w
                       @ [\<lparr>title = json_member v ''title'', body = json_member v ''body''\<rparr>],
                   console := console w @ [rejection]\<rparr>
             | Inr _ \<Rightarrow>
                 w\<lparr>shown := shown w
                       @ [\<lparr>title = json_member v ''title'', body = json_member v ''body''\<rparr>]\<rparr>)"
    unfolding push_listener_def try_catch_def push_try_value [OF d n]
    by (simp add: console_log_def split: sum.splits)
qed

theorem push_failure_caught_and_logged_witness:
  "snd (push_listener accept_notification \<lparr>data = None\<rparr> idle_worker)
     = idle_worker\<lparr>console := [null_data_error]\<rparr>
   \<and> push_listener accept_notification
        \<lparr>data = Some (Inl (ErrorInstance ''Unexpected token''))\<rparr> idle_worker
     = (Inr (), idle_worker\<lparr>console := [ErrorInstance ''Unexpected token'']\<rparr>)
   \<and> snd (push_listener accept_notification \<lparr>data = Some (Inr JNull)\<rparr> idle_worker)
     = idle_worker\<lparr>console := [null_member_error ''body'']\<rparr>
   \<and> snd (push_listener accept_notification \<lparr>data = Some (Inr empty_object)\<rparr> idle_worker)
     = idle_worker\<lparr>shown := [\<lparr>title = None, body = None\<rparr>]\<rparr>"
proof -
  note absent = push_failure_caught_and_logged
      [of accept_notification "\<lparr>data = None\<rparr>" idle_worker NonError JNull]
  note malformed = push_failure_caught_and_logged
      [of accept_notification "\<lparr>data = Some (Inl (ErrorInstance ''Unexpected token''))\<rparr>"
          idle_worker "ErrorInstance ''Unexpected token''" JNull]
  note null = push_failure_caught_and_logged
      [of accept_notification "\<lparr>data = Some (Inr JNull)\<rparr>" idle_worker NonError JNull]
  note lacking = push_failure_caught_and_logged
      [of accept_notification "\<lparr>data = Some (Inr empty_object)\<rparr>" idle_worker NonError
          empty_object]
  have "snd (push_listener accept_notification \<lparr>data = None\<rparr> idle_worker)
          = idle_worker\<lparr>console := [null_data_error]\<rparr>"
    using absent by (simp add: idle_worker_def)
  moreover have "push_listener accept_notification
        \<lparr>data = Some (Inl (ErrorInstance ''Unexpected token''))\<rparr> idle_worker
     = (Inr (), idle_worker\<lparr>console := [ErrorInstance ''Unexpected token'']\<rparr>)"
    using malformed by (simp add: prod_eq_iff idle_worker_def)
  moreover have "snd (push_listener accept_notification \<lparr>data = Some (Inr JNull)\<rparr> idle_worker)
     = idle_worker\<lparr>console := [null_member_error ''body'']\<rparr>"
    using null by (simp add: idle_worker_def)
  moreover have "snd (push_listener accept_notification \<lparr>data = Some (Inr empty_object)\<rparr>
        idle_worker)
     = idle_worker\<lparr>shown := [\<lparr>title = None, body = None\<rparr>]\<rparr>"
    using lacking by (simp add: idle_worker_def empty_object_def json_member_def accept_notification_def)
  ultimately show ?thesis by blast
qed

text \<open>
  Claim C4 as stated fails for a payload that lacks the expected members: for \<^verbatim>\<open>{}\<close>
  no failure is raised and nothing is logged, and a notification is asked for with an
  undefined title and body.
\<close>

theorem push_lacking_fields_not_logged:
  "console (snd (push_listener accept_notification \<lparr>data = Some (Inr empty_object)\<rparr> idle_worker))
     = []
   \<and> shown (snd (push_listener accept_notification \<lparr>data = Some (Inr empty_object)\<rparr> idle_worker))
     = [\<lparr>title = None, body = None\<rparr>]"
proof -
  have d: "data \<lparr>data = Some (Inr empty_object)\<rparr> = Some (Inr empty_object)" by simp
  have n: "empty_object \<noteq> JNull" by (simp add: empty_object_def)
  show ?thesis
    unfolding push_listener_def try_catch_def push_try_value [OF d n]
    by (simp add: accept_notification_def json_member_def empty_object_def idle_worker_def)
qed

text \<open>
  Claim C7. When the payload parses to a JSON object with members \<^verbatim>\<open>title\<close> and
  \<^verbatim>\<open>body\<close>, the listener asks the platform for exactly one notification, whose title
  is the payload's \<^verbatim>\<open>title\<close> and whose body is the payload's \<^verbatim>\<open>body\<close>.
\<close>

theorem push_shows_one_notification:
  "data event = Some (Inr (JObj members)) \<Longrightarrow>
   members ''title'' = Some t \<Longrightarrow> members ''body'' = Some b \<Longrightarrow>
   shown (snd (push_listener showNotification event w))
     = shown w @ [\<lparr>title = Some t, body = Some b\<rparr>]"
proof -
  assume d: "data event = Some (Inr (JObj members))"
    and t: "members ''title'' = Some t" and b: "members ''body'' = Some b"
  show ?thesis
    unfolding push_listener_def try_catch_def push_try_object [OF d] t b
    by (cases "showNotification \<lparr>title = Some t, body = Some b\<rparr>")
       (simp_all add: console_log_def)
qed

theorem push_shows_one_notification_witness:
  "shown (snd (push_listener (\<lambda>r. Inr ())
       \<lparr>data = Some (Inr (JObj [''title'' \<mapsto> JStr ''Hi'', ''body'' \<mapsto> JStr ''there'']))\<rparr>
       idle_worker))
     = [\<lparr>title = Some (JStr ''Hi''), body = Some (JStr ''there'')\<rparr>]"
  using push_shows_one_notification
      [of "\<lparr>data = Some (Inr (JObj [''title'' \<mapsto> JStr ''Hi'', ''body'' \<mapsto> JStr ''there'']))\<rparr>"
          "[''title'' \<mapsto> JStr ''Hi'', ''body'' \<mapsto> JStr ''there'']"
          "JStr ''Hi''" "JStr ''there''" "\<lambda>r. Inr ()" idle_worker]
  by (simp add: idle_worker_def)

text \<open>
  Claim C8. The activation listener calls \<^verbatim>\<open>clients.claim()\<close> unconditionally, so after
  it every open page in scope is controlled by the worker; the install listener calls
  \<^verbatim>\<open>self.skipWaiting()\<close> unconditionally, so after it the skip-waiting flag is set
  whatever it was before.
\<close>

theorem worker_takes_over_at_once:
  "controlled (activate_listener w) = controlled w \<union> open_pages w
   \<and> open_pages w \<subseteq> controlled (activate_listener w)
   \<and> skip_waiting_flag (install_listener w)"
  by (simp add: activate_listener_def clients_claim_def install_listener_def skipWaiting_def)

theorem worker_takes_over_at_once_witness:
  "controlled (activate_listener idle_worker) = {1, 2}
   \<and> skip_waiting_flag (install_listener idle_worker)"
  using worker_takes_over_at_once [of idle_worker]
  by (simp add: idle_worker_def)


section \<open>The push flow\<close>

subsection \<open>Running the blocks\<close>

lemma js_bind_assoc [simp]:
  "js_bind (js_bind m g) f = js_bind m (\<lambda>x. js_bind (g x) f)"
  by (auto simp: js_bind_def fun_eq_iff split: prod.splits sum.splits)

lemma js_bind_await_Inr [simp]:
  "js_bind (await pf k (Inr x)) f w = f x (w\<lparr>document := meanwhile pf k (document w)\<rparr>)"
  by (simp add: js_bind_def await_def)

lemma js_bind_await_Inl [simp]:
  "js_bind (await pf k (Inl e)) f w = (Inl e, w\<lparr>document := meanwhile pf k (document w)\<rparr>)"
  by (simp add: js_bind_def await_def)

lemma js_bind_modify_page [simp]:
  "js_bind (modify_page g) f w = f () (w\<lparr>document := g (document w)\<rparr>)"
  by (simp add: js_bind_def modify_page_def)

lemma modify_page_apply: "modify_page g w = (Inr (), w\<lparr>document := g (document w)\<rparr>)"
  by (simp add: modify_page_def)

lemma js_bind_floating [simp]:
  "js_bind (floating promise) f w =
     f () (case promise of
             Inl e \<Rightarrow> w\<lparr>unhandled_rejections := unhandled_rejections w @ [e]\<rparr>
           | Inr _ \<Rightarrow> w)"
  by (simp add: js_bind_def floating_def)

lemma document_after_update [simp]: "document (after_update pf w) = document w"
  by (simp add: after_update_def split: sum.splits)

lemma requests_after_update [simp]: "register_requests (after_update pf w) = register_requests w"
  by (simp add: after_update_def split: sum.splits)

lemma requests_suspended [simp]: "register_requests (suspended pf k w) = register_requests w"
  by (simp add: suspended_def)

lemma document_suspended [simp]: "document (suspended pf k w) = meanwhile pf k (document w)"
  by (simp add: suspended_def)

lemma unhandled_suspended [simp]:
  "unhandled_rejections (suspended pf k w) = unhandled_rejections w"
  by (simp add: suspended_def)

lemma text_report_text [simp]: "state_textContent (document (report_text msg w)) = Some msg"
  by (simp add: report_text_def)

lemma first_block_key_fetch_fails:
  "fetchVapidKeys pf = Inl e \<Longrightarrow> subscribe_and_display pf w = (Inl e, suspended pf 0 w)"
  by (simp add: subscribe_and_display_def suspended_def)

lemma first_block_permission_fails:
  "fetchVapidKeys pf = Inr keys \<Longrightarrow> Notification_requestPermission pf = Inl e \<Longrightarrow>
   subscribe_and_display pf w = (Inl e, suspended pf 1 (suspended pf 0 w))"
  by (simp add: subscribe_and_display_def suspended_def)

lemma first_block_register_fails:
  "fetchVapidKeys pf = Inr keys \<Longrightarrow> Notification_requestPermission pf = Inr perm \<Longrightarrow>
   serviceWorker_register pf = Inl e \<Longrightarrow>
   subscribe_and_display pf w = (Inl e, suspended pf 2 (suspended pf 1 (suspended pf 0 w)))"
  by (simp add: subscribe_and_display_def subscribeUserToPush_def suspended_def)

lemma first_block_key_decoding_fails:
  "fetchVapidKeys pf = Inr keys \<Longrightarrow> Notification_requestPermission pf = Inr perm \<Longrightarrow>
   serviceWorker_register pf = Inr () \<Longrightarrow>
   (case publicKey keys of None \<Rightarrow> Inl undefined_length_error
      | Some base64String \<Rightarrow> urlBase64ToUint8Array base64String) = Inl e \<Longrightarrow>
   subscribe_and_display pf w
     = (Inl e, after_update pf (suspended pf 2 (suspended pf 1 (suspended pf 0 w))))"
  by (simp add: subscribe_and_display_def subscribeUserToPush_def suspended_def after_update_def)

lemma first_block_subscribe_fails:
  "fetchVapidKeys pf = Inr keys \<Longrightarrow> Notification_requestPermission pf = Inr perm \<Longrightarrow>
   serviceWorker_register pf = Inr () \<Longrightarrow> publicKey keys = Some s \<Longrightarrow>
   urlBase64ToUint8Array s = Inr key \<Longrightarrow> pushManager_subscribe pf key = Inl e \<Longrightarrow>
   subscribe_and_display pf w
     = (Inl e, suspended pf 3 (after_update pf (suspended pf 2 (suspended pf 1 (suspended pf 0 w)))))"
  by (simp add: subscribe_and_display_def subscribeUserToPush_def suspended_def after_update_def)

lemma first_block_succeeds:
  "fetchVapidKeys pf = Inr keys \<Longrightarrow> Notification_requestPermission pf = Inr perm \<Longrightarrow>
   serviceWorker_register pf = Inr () \<Longrightarrow> publicKey keys = Some s \<Longrightarrow>
   urlBase64ToUint8Array s = Inr key \<Longrightarrow> pushManager_subscribe pf key = Inr sub \<Longrightarrow>
   subscribe_and_display pf w
     = (Inr (),
        (suspended pf 3 (after_update pf (suspended pf 2 (suspended pf 1 (suspended pf 0 w)))))
          \<lparr>document :=
             (meanwhile pf 3 (meanwhile pf 2 (meanwhile pf 1 (meanwhile pf 0 (document w)))))
               \<lparr>state_subscription := Some sub, details_textContent := JSON_stringify pf sub\<rparr>\<rparr>)"
  by (simp add: subscribe_and_display_def subscribeUserToPush_def suspended_def after_update_def
        modify_page_apply split: sum.splits)

lemma second_block_without_subscription:
  "state_subscription (document w) = None \<Longrightarrow>
   register_post pf w = (Inl json_parse_undefined_error, w)"
  by (simp add: register_post_def build_request_def js_bind_def)

lemma second_block_with_subscription:
  "state_subscription (document w) = Some sub \<Longrightarrow>
   register_post pf w =
     (fetch_register pf
        \<lparr>url = ''/register'', http_method = ''POST'', content_type = ''application/json'',
         payload = [''user_id'' \<mapsto> JStr (userId_value (document w))] ++ sub\<rparr>,
      suspended pf 4
        (w\<lparr>register_requests := register_requests w @
            [\<lparr>url = ''/register'', http_method = ''POST'', content_type = ''application/json'',
              payload = [''user_id'' \<mapsto> JStr (userId_value (document w))] ++ sub\<rparr>]\<rparr>))"
  by (simp add: register_post_def build_request_def js_bind_def send_request_def await_def
        suspended_def)

subsection \<open>The catch clauses\<close>

lemma report_error: "report (ErrorInstance msg) w = (Inr (), report_text msg w)"
  by (simp add: report_def modify_page_apply report_text_def)

lemma report_other: "report NonError w = (Inr (), w)"
  by (simp add: report_def js_return_def)

lemma report_fulfils: "fst (report e s) = Inr ()"
  by (cases e) (simp_all add: report_error report_other)

lemma requests_report [simp]: "register_requests (snd (report e w)) = register_requests w"
  by (cases e) (simp_all add: report_error report_other report_text_def)

lemma unhandled_report [simp]: "unhandled_rejections (snd (report e w)) = unhandled_rejections w"
  by (cases e) (simp_all add: report_error report_other report_text_def)

lemma subscription_report [simp]:
  "state_subscription (document (snd (report e w))) = state_subscription (document w)"
  by (cases e) (simp_all add: report_error report_other report_text_def)

lemma requests_try_catch_report:
  "register_requests (snd (try_catch m report w)) = register_requests (snd (m w))"
proof (cases "m w")
  case (Pair r w')
  then show ?thesis by (cases r) (simp_all add: try_catch_def)
qed

lemma unhandled_try_catch_report:
  "unhandled_rejections (snd (try_catch m report w)) = unhandled_rejections (snd (m w))"
proof (cases "m w")
  case (Pair r w')
  then show ?thesis by (cases r) (simp_all add: try_catch_def)
qed

lemma caught_key_fetch:
  "fetchVapidKeys pf = Inl (ErrorInstance msg) \<Longrightarrow>
   try_catch (subscribe_and_display pf) report w = (Inr (), report_text msg (suspended pf 0 w))"
  by (simp add: try_catch_def first_block_key_fetch_fails report_error)

lemma caught_permission:
  "fetchVapidKeys pf = Inr keys \<Longrightarrow>
   Notification_requestPermission pf = Inl (ErrorInstance msg) \<Longrightarrow>
   try_catch (subscribe_and_display pf) report w
     = (Inr (), report_text msg (suspended pf 1 (suspended pf 0 w)))"
  by (simp add: try_catch_def first_block_permission_fails report_error)

lemma caught_register:
  "fetchVapidKeys pf = Inr keys \<Longrightarrow> Notification_requestPermission pf = Inr perm \<Longrightarrow>
   serviceWorker_register pf = Inl (ErrorInstance msg) \<Longrightarrow>
   try_catch (subscribe_and_display pf) report w
     = (Inr (), report_text msg (suspended pf 2 (suspended pf 1 (suspended pf 0 w))))"
  by (simp add: try_catch_def first_block_register_fails report_error)

lemma caught_key_decoding:
  "fetchVapidKeys pf = Inr keys \<Longrightarrow> Notification_requestPermission pf = Inr perm \<Longrightarrow>
   serviceWorker_register pf = Inr () \<Longrightarrow>
   (case publicKey keys of None \<Rightarrow> Inl undefined_length_error
      | Some base64String \<Rightarrow> urlBase64ToUint8Array base64String) = Inl (ErrorInstance msg) \<Longrightarrow>
   try_catch (subscribe_and_display pf) report w
     = (Inr (), report_text msg
         (after_update pf (suspended pf 2 (suspended pf 1 (suspended pf 0 w)))))"
  by (simp add: try_catch_def first_block_key_decoding_fails report_error)

lemma caught_subscribe:
  "fetchVapidKeys pf = Inr keys \<Longrightarrow> Notification_requestPermission pf = Inr perm \<Longrightarrow>
   serviceWorker_register pf = Inr () \<Longrightarrow> publicKey keys = Some s \<Longrightarrow>
   urlBase64ToUint8Array s = Inr key \<Longrightarrow>
   pushManager_subscribe pf key = Inl (ErrorInstance msg) \<Longrightarrow>
   try_catch (subscribe_and_display pf) report w
     = (Inr (), report_text msg
         (suspended pf 3 (after_update pf (suspended pf 2 (suspended pf 1 (suspended pf 0 w))))))"
  by (simp add: try_catch_def first_block_subscribe_fails report_error)

lemma caught_post:
  "state_subscription (document w) = Some sub \<Longrightarrow>
   fetch_register pf (register_request (userId_value (document w)) sub) = Inl (ErrorInstance msg) \<Longrightarrow>
   try_catch (register_post pf) report w
     = (Inr (), report_text msg
         (suspended pf 4
            (w\<lparr>register_requests := register_requests w
                   @ [register_request (userId_value (document w)) sub]\<rparr>)))"
  by (simp add: try_catch_def second_block_with_subscription report_error register_request_def)

subsection \<open>The whole handler\<close>

lemma first_try_catch_result:
  "\<exists>w1. try_catch (subscribe_and_display pf) report w = (Inr (), w1)"
proof -
  have "fst (try_catch (subscribe_and_display pf) report w) = Inr ()"
    by (rule try_catch_fulfils) (rule report_fulfils)
  then show ?thesis by (cases "try_catch (subscribe_and_display pf) report w") simp
qed

lemma main_after_first_block:
  "try_catch (subscribe_and_display pf) report w = (Inr (), w1) \<Longrightarrow>
   main pf w = try_catch (register_post pf) report w1"
  by (simp add: main_def js_bind_def)

lemma main_split:
  "main pf w = try_catch (register_post pf) report (snd (try_catch (subscribe_and_display pf) report w))"
proof -
  obtain w1 where a: "try_catch (subscribe_and_display pf) report w = (Inr (), w1)"
    using first_try_catch_result by blast
  show ?thesis unfolding main_after_first_block [OF a] a by simp
qed

lemma main_fulfils: "fst (main pf w) = Inr ()"
  unfolding main_split by (rule try_catch_fulfils) (rule report_fulfils)

lemma requests_first_block: "register_requests (snd (subscribe_and_display pf w)) = register_requests w"
  by (simp add: subscribe_and_display_def subscribeUserToPush_def js_bind_def await_def
        floating_def settle_def modify_page_def split: sum.splits option.splits prod.splits)

lemma requests_second_block:
  "register_requests (snd (register_post pf w)) = register_requests w
   \<or> (\<exists>req. register_requests (snd (register_post pf w)) = register_requests w @ [req])"
  by (cases "state_subscription (document w)")
     (simp_all add: second_block_without_subscription second_block_with_subscription)

lemma main_requests_at_most_one:
  "register_requests (snd (main pf w)) = register_requests w
   \<or> (\<exists>req. register_requests (snd (main pf w)) = register_requests w @ [req])"
  using requests_second_block [of pf "snd (try_catch (subscribe_and_display pf) report w)"]
  by (simp add: main_split requests_try_catch_report requests_first_block)

lemma main_requests_with_subscription:
  assumes "try_catch (subscribe_and_display pf) report w = (Inr (), w1)"
    and "state_subscription (document w1) = Some sub"
  shows "register_requests (snd (main pf w))
           = register_requests w1 @ [register_request (userId_value (document w1)) sub]"
  unfolding main_after_first_block [OF assms(1)] requests_try_catch_report
    second_block_with_subscription [OF assms(2)]
  by (simp add: register_request_def)

lemma main_run_succeeding_first_block:
  assumes "fetchVapidKeys pf = Inr keys" and "Notification_requestPermission pf = Inr perm"
    and "serviceWorker_register pf = Inr ()" and "publicKey keys = Some s"
    and "urlBase64ToUint8Array s = Inr key" and "pushManager_subscribe pf key = Inr sub"
  shows "main pf w
           = try_catch (register_post pf) report
               ((suspended pf 3 (after_update pf (suspended pf 2 (suspended pf 1 (suspended pf 0 w)))))
                 \<lparr>document :=
                    (page_when_subscribed pf (document w))
                      \<lparr>state_subscription := Some sub,
                       details_textContent := JSON_stringify pf sub\<rparr>\<rparr>)"
  by (rule main_after_first_block)
     (simp add: try_catch_def first_block_succeeds [OF assms] page_when_subscribed_def)

lemma push_flow_request:
  assumes "fetchVapidKeys pf = Inr keys" and "Notification_requestPermission pf = Inr perm"
    and "serviceWorker_register pf = Inr ()" and "publicKey keys = Some s"
    and "urlBase64ToUint8Array s = Inr key" and "pushManager_subscribe pf key = Inr sub"
  shows "register_requests (snd (main pf w))
           = register_requests w
             @ [register_request (userId_value (page_when_subscribed pf (document w))) sub]"
  unfolding main_run_succeeding_first_block [OF assms] requests_try_catch_report
  by (simp add: second_block_with_subscription register_request_def)

lemma main_without_subscription:
  assumes "subscribe_and_display pf w = (Inl e, w1)"
    and "state_subscription (document w1) = None"
  shows "main pf w
           = (Inr (), report_text (message json_parse_undefined_error) (snd (report e w1)))"
proof -
  have r: "report e w1 = (Inr (), snd (report e w1))"
    using report_fulfils [of e w1] by (cases "report e w1") simp
  have a: "try_catch (subscribe_and_display pf) report w = (Inr (), snd (report e w1))"
    using r by (simp add: try_catch_def assms(1))
  have n: "state_subscription (document (snd (report e w1))) = None"
    using assms(2) by simp
  show ?thesis
    unfolding main_after_first_block [OF a]
    by (simp add: try_catch_def second_block_without_subscription [OF n]
          json_parse_undefined_error_def report_error)
qed

subsection \<open>Rejections that nothing handles\<close>

lemma unhandled_first_block:
  "registration_update pf = Inr () \<Longrightarrow>
   unhandled_rejections (snd (subscribe_and_display pf w)) = unhandled_rejections w"
  by (simp add: subscribe_and_display_def subscribeUserToPush_def js_bind_def await_def
        floating_def settle_def modify_page_def split: sum.splits option.splits prod.splits)

lemma unhandled_second_block [simp]:
  "unhandled_rejections (snd (try_catch (register_post pf) report w)) = unhandled_rejections w"
  by (cases "state_subscription (document w)")
     (auto simp: try_catch_def second_block_without_subscription second_block_with_subscription
        suspended_def split: sum.splits)

text \<open>
  The promise of line 45 is the only one that nothing handles: when it is fulfilled, a run
  of the handler leaves no unhandled rejection, whatever else fails.
\<close>

lemma main_unhandled_only_from_update:
  assumes "registration_update pf = Inr ()"
  shows "unhandled_rejections (snd (main pf w)) = unhandled_rejections w"
proof -
  have "unhandled_rejections (snd (main pf w))
          = unhandled_rejections (snd (try_catch (subscribe_and_display pf) report w))"
    by (simp add: main_split)
  also have "\<dots> = unhandled_rejections (snd (subscribe_and_display pf w))"
    by (rule unhandled_try_catch_report)
  also have "\<dots> = unhandled_rejections w"
    by (rule unhandled_first_block [OF assms])
  finally show ?thesis .
qed

lemma main_unhandled:
  assumes "fetchVapidKeys pf = Inr keys" and "Notification_requestPermission pf = Inr perm"
    and "serviceWorker_register pf = Inr ()" and "publicKey keys = Some s"
    and "urlBase64ToUint8Array s = Inr key" and "pushManager_subscribe pf key = Inr sub"
  shows "unhandled_rejections (snd (main pf w))
           = unhandled_rejections w
             @ (case registration_update pf of Inl e \<Rightarrow> [e] | Inr _ \<Rightarrow> [])"
  unfolding main_run_succeeding_first_block [OF assms]
  by (simp add: after_update_def split: sum.splits)

subsection \<open>The example platforms\<close>

lemma example_key: "urlBase64ToUint8Array ''AQID'' = Inr [1, 2, 3]"
proof -
  have "base64url_encode [1, 2, 3] = ''AQID''"
    by (simp add: base64url_encode_def base64url_alphabet_def Let_def)
  then show ?thesis using decode_unpadded [of "[1, 2, 3]"] by simp
qed

lemma example_publicKey: "publicKey \<lparr>publicKey = Some ''AQID''\<rparr> = Some ''AQID''"
  by simp

lemma calm_steps:
  "fetchVapidKeys calm_platform = Inr \<lparr>publicKey = Some ''AQID''\<rparr>"
  "Notification_requestPermission calm_platform = Inr ''granted''"
  "serviceWorker_register calm_platform = Inr ()"
  "pushManager_subscribe calm_platform key = Inr example_subscription"
  "registration_update calm_platform = Inr ()"
  by (simp_all add: calm_platform_def fetchVapidKeys_def)

lemma typing_steps:
  "fetchVapidKeys typing_platform = Inr \<lparr>publicKey = Some ''AQID''\<rparr>"
  "Notification_requestPermission typing_platform = Inr ''granted''"
  "serviceWorker_register typing_platform = Inr ()"
  "pushManager_subscribe typing_platform key = Inr example_subscription"
  by (simp_all add: typing_platform_def calm_platform_def fetchVapidKeys_def)

lemma failed_update_steps:
  "fetchVapidKeys failed_update_platform = Inr \<lparr>publicKey = Some ''AQID''\<rparr>"
  "Notification_requestPermission failed_update_platform = Inr ''granted''"
  "serviceWorker_register failed_update_platform = Inr ()"
  "pushManager_subscribe failed_update_platform key = Inr example_subscription"
  "registration_update failed_update_platform = Inl (ErrorInstance ''Failed to fetch the script'')"
  by (simp_all add: failed_update_platform_def calm_platform_def fetchVapidKeys_def)

lemma offline_key_fetch: "fetchVapidKeys offline_platform = Inl (ErrorInstance ''Failed to fetch'')"
  by (simp add: offline_platform_def calm_platform_def fetchVapidKeys_def)

lemma offline_first_block:
  "subscribe_and_display offline_platform fresh_window
     = (Inl (ErrorInstance ''Failed to fetch''), fresh_window)"
proof -
  have "subscribe_and_display offline_platform fresh_window
          = (Inl (ErrorInstance ''Failed to fetch''), suspended offline_platform 0 fresh_window)"
    by (rule first_block_key_fetch_fails [OF offline_key_fetch])
  then show ?thesis
    by (simp add: suspended_def offline_platform_def calm_platform_def)
qed

subsection \<open>The registration request\<close>

text \<open>
  Claim C3, as amended. In a run in which the key fetch, the permission request, the
  worker registration, the key decoding and the subscribe call all succeed, the last
  yielding the subscription \<open>sub\<close>, the handler sends exactly one request to
  \<^verbatim>\<open>/register\<close>. Its body has the member \<^verbatim>\<open>user_id\<close> and the members of \<open>sub\<close> and no
  others; every member of \<open>sub\<close> has the value it has in \<open>sub\<close>; and, unless \<open>sub\<close>
  itself has a member of that name, \<^verbatim>\<open>user_id\<close> holds the value that the input has when
  the body is built, that is after the subscribe call has settled, not the value it had
  when the flow was triggered.
\<close>

theorem registration_body:
  assumes "fetchVapidKeys pf = Inr keys" and "Notification_requestPermission pf = Inr perm"
    and "serviceWorker_register pf = Inr ()" and "publicKey keys = Some s"
    and "urlBase64ToUint8Array s = Inr key" and "pushManager_subscribe pf key = Inr sub"
  shows "register_requests (snd (main pf w))
           = register_requests w
             @ [register_request (userId_value (page_when_subscribed pf (document w))) sub]
         \<and> dom (payload (register_request u sub)) = insert ''user_id'' (dom sub)
         \<and> (\<forall>k\<in>dom sub. payload (register_request u sub) k = sub k)
         \<and> (''user_id'' \<notin> dom sub \<longrightarrow> payload (register_request u sub) ''user_id'' = Some (JStr u))"
proof (intro conjI)
  show "register_requests (snd (main pf w))
           = register_requests w
             @ [register_request (userId_value (page_when_subscribed pf (document w))) sub]"
    by (rule push_flow_request [OF assms])
  show "dom (payload (register_request u sub)) = insert ''user_id'' (dom sub)"
    by (auto simp: register_request_def)
  show "\<forall>k\<in>dom sub. payload (register_request u sub) k = sub k"
    by (auto simp: register_request_def map_add_def)
  show "''user_id'' \<notin> dom sub \<longrightarrow> payload (register_request u sub) ''user_id'' = Some (JStr u)"
    by (auto simp: register_request_def map_add_def split: option.splits)
qed

theorem registration_body_witness:
  "register_requests (snd (main calm_platform fresh_window))
     = [register_request ''alice'' example_subscription]
   \<and> dom (payload (register_request ''alice'' example_subscription))
       = {''user_id'', ''endpoint'', ''expirationTime''}
   \<and> payload (register_request ''alice'' example_subscription) ''endpoint''
       = Some (JStr ''https://push.example/abc'')
   \<and> payload (register_request ''alice'' example_subscription) ''user_id'' = Some (JStr ''alice'')"
proof -
  have p: "page_when_subscribed calm_platform (document fresh_window) = blank_page"
    by (simp add: page_when_subscribed_def calm_platform_def fresh_window_def)
  have d: "dom example_subscription = {''endpoint'', ''expirationTime''}"
    by (auto simp: example_subscription_def)
  show ?thesis
    using registration_body [OF calm_steps(1,2,3) example_publicKey example_key calm_steps(4),
        of fresh_window "''alice''"]
    unfolding p d
    by (simp add: fresh_window_def blank_page_def example_subscription_def)
qed

text \<open>
  Claim C3 as stated fails on the value of \<^verbatim>\<open>user_id\<close>: the input holds \<^verbatim>\<open>alice\<close> when
  the flow is triggered, the user changes it to \<^verbatim>\<open>bob\<close> while the permission prompt is
  open, and the request carries \<^verbatim>\<open>bob\<close>.
\<close>

theorem registration_body_reads_late:
  "payload (hd (register_requests (snd (main typing_platform fresh_window)))) ''user_id''
     \<noteq> Some (JStr (userId_value (document fresh_window)))"
proof -
  have p: "userId_value (page_when_subscribed typing_platform (document fresh_window)) = ''bob''"
    by (simp add: page_when_subscribed_def typing_platform_def calm_platform_def)
  have "register_requests (snd (main typing_platform fresh_window))
          = [register_request ''bob'' example_subscription]"
    using push_flow_request [OF typing_steps(1,2,3) example_publicKey example_key typing_steps(4),
        of fresh_window]
    unfolding p by (simp add: fresh_window_def)
  then show ?thesis
    by (simp add: register_request_def example_subscription_def map_add_def
          fresh_window_def blank_page_def)
qed

subsection \<open>Failures of the push flow\<close>

text \<open>
  Claim C5 at a failing input. Every awaited step of the flow is inside one of the two
  \<^verbatim>\<open>try\<close> blocks, and what it throws is caught and its message written to the status
  element, as the lemmas on the \<^verbatim>\<open>catch\<close> clauses above say step by step. The update
  check of line 45 is a step of the subscribe sequence too, but its promise is neither
  awaited nor handled. On a platform where every awaited step succeeds and the update
  check is rejected, the handler ends normally, the status element still shows the text
  it had before the run, and the rejection is left unhandled: that failure is caught at
  neither catch point and is not reported.
\<close>

theorem update_rejection_not_reported:
  "registration_update failed_update_platform = Inl (ErrorInstance ''Failed to fetch the script'')
   \<and> fst (main failed_update_platform connected_window) = Inr ()
   \<and> state_textContent (document (snd (main failed_update_platform connected_window)))
       = Some ''connected''
   \<and> unhandled_rejections (snd (main failed_update_platform connected_window))
       = [ErrorInstance ''Failed to fetch the script'']"
proof (intro conjI)
  show "registration_update failed_update_platform
          = Inl (ErrorInstance ''Failed to fetch the script'')"
    by (rule failed_update_steps(5))
  show "fst (main failed_update_platform connected_window) = Inr ()"
    by (rule main_fulfils)
  show "state_textContent (document (snd (main failed_update_platform connected_window)))
          = Some ''connected''"
    unfolding main_run_succeeding_first_block
      [OF failed_update_steps(1,2,3) example_publicKey example_key failed_update_steps(4)]
    by (simp add: try_catch_def second_block_with_subscription suspended_def
          page_when_subscribed_def failed_update_platform_def
          calm_platform_def connected_window_def fresh_window_def)
  show "unhandled_rejections (snd (main failed_update_platform connected_window))
          = [ErrorInstance ''Failed to fetch the script'']"
    unfolding main_unhandled
      [OF failed_update_steps(1,2,3) example_publicKey example_key failed_update_steps(4)]
    by (simp add: failed_update_steps(5) connected_window_def fresh_window_def)
qed

text \<open>
  Claim C9. When the first block fails and \<^verbatim>\<open>state.subscription\<close> is still
  \<^verbatim>\<open>undefined\<close>, the second block throws while it builds the request body, before
  \<^verbatim>\<open>fetch\<close> is called: the run sends no request to \<^verbatim>\<open>/register\<close>, the exception is
  caught by the second \<^verbatim>\<open>catch\<close> clause, and its message is what the status element
  shows in the end.
\<close>

theorem no_post_without_subscription:
  assumes "subscribe_and_display pf w = (Inl e, w1)"
    and "state_subscription (document w1) = None"
  shows "register_requests (snd (main pf w)) = register_requests w
         \<and> fst (main pf w) = Inr ()
         \<and> register_post pf (snd (report e w1))
             = (Inl json_parse_undefined_error, snd (report e w1))
         \<and> state_textContent (document (snd (main pf w)))
             = Some (message json_parse_undefined_error)"
proof -
  have q: "register_requests w1 = register_requests w"
    using requests_first_block [of pf w] assms(1) by simp
  have n: "state_subscription (document (snd (report e w1))) = None"
    using assms(2) by simp
  show ?thesis
    unfolding main_without_subscription [OF assms]
    using q second_block_without_subscription [OF n]
    by (simp add: report_text_def)
qed

theorem no_post_without_subscription_witness:
  "register_requests (snd (main offline_platform fresh_window)) = []
   \<and> state_textContent (document (snd (main offline_platform fresh_window)))
       = Some ''Unexpected token u in JSON at position 0''"
  using no_post_without_subscription [OF offline_first_block]
  by (simp add: fresh_window_def blank_page_def json_parse_undefined_error_def)

subsection \<open>The update check of line 45\<close>

text \<open>
  Claim C6 at a failing input. The promise that \<^verbatim>\<open>registration.update()\<close> returns is
  neither awaited nor given a handler. On a platform where every awaited step succeeds
  and the update check is rejected, a run of the handler leaves that rejection
  unhandled. A single activation does; it is also the second of two overlapping
  activations, since the first has not written to the page while its subscribe call is
  pending. The second of two activations in sequence does so too.
\<close>

theorem update_rejection_unhandled:
  "unhandled_rejections (snd (main failed_update_platform fresh_window))
     = [ErrorInstance ''Failed to fetch the script'']
   \<and> unhandled_rejections
        (snd (main failed_update_platform (snd (main calm_platform fresh_window))))
     = [ErrorInstance ''Failed to fetch the script'']"
  unfolding
    main_unhandled [OF failed_update_steps(1,2,3) example_publicKey example_key failed_update_steps(4)]
    main_unhandled [OF calm_steps(1,2,3) example_publicKey example_key calm_steps(4)]
  by (simp add: failed_update_steps(5) calm_steps(5) fresh_window_def)

end
